theory Spec2Isabelle
  imports Main
begin

section \<open>Data model\<close>

text \<open>
  Decoded JSON documents, as \<^verbatim>\<open>response.json()\<close> hands them to the client. An object is
  the list of its own properties; numbers are kept as integers, since the client only
  tests them for truthiness.
\<close>

datatype json =
    JNull
  | JBool bool
  | JNum int
  | JStr string
  | JArr "json list"
  | JObj "(string \<times> json) list"

text \<open>JavaScript truthiness of a decoded JSON value (the left operand of \<^verbatim>\<open>||\<close>).\<close>

fun truthy :: "json \<Rightarrow> bool" where
  "truthy JNull = False"
| "truthy (JBool b) = b"
| "truthy (JNum n) = (n \<noteq> 0)"
| "truthy (JStr s) = (s \<noteq> [])"
| "truthy (JArr xs) = True"
| "truthy (JObj kvs) = True"

text \<open>
  The classes of the exceptions module: \<^verbatim>\<open>TranslatePlusError\<close> extends \<^verbatim>\<open>Error\<close>,
  \<^verbatim>\<open>TranslatePlusAPIError\<close> extends it with the fields \<^verbatim>\<open>statusCode\<close> and
  \<^verbatim>\<open>response\<close>, the authentication, rate-limit and insufficient-credits errors extend
  the API error, and \<^verbatim>\<open>TranslatePlusValidationError\<close> extends the base class. The client
  only ever tests an error for being an authentication or an insufficient-credits
  error, which have no subclasses, and for the name \<^verbatim>\<open>AbortError\<close>, which none of the
  library's classes bears; so \<^verbatim>\<open>instanceof\<close> and the test of \<^verbatim>\<open>name\<close> are comparisons
  of the class. The remaining classes are the errors of the runtime that reach the same
  \<^verbatim>\<open>catch\<close> clauses: the \<^verbatim>\<open>AbortError\<close> of an aborted fetch, the \<^verbatim>\<open>TypeError\<close> of a
  property read on \<^verbatim>\<open>null\<close>, and any other error (a transport failure, a body that is
  not JSON).
\<close>

datatype error_class =
    TranslatePlusError
  | TranslatePlusAPIError
  | TranslatePlusAuthenticationError
  | TranslatePlusRateLimitError
  | TranslatePlusInsufficientCreditsError
  | TranslatePlusValidationError
  | AbortError
  | TypeError
  | OtherError

text \<open>
  Messages are kept as terms, one constructor per template of the source:
  \<^item> \<open>Literal s\<close> is the string \<open>s\<close>;
  \<^item> \<open>Detail j\<close> is \<^verbatim>\<open>errorData.detail\<close>;
  \<^item> \<open>ApiErrorStatus n\<close> is \<^verbatim>\<open>`API error: ${response.status}`\<close>;
  \<^item> \<open>RequestTimeoutAfter t\<close> is \<^verbatim>\<open>`Request timeout after ${this.timeout}ms`\<close>;
  \<^item> \<open>RequestFailedAfter n m\<close> is
    \<^verbatim>\<open>`Request failed after ${this.maxRetries} retries: ${lastError?.message || 'Unknown error'}`\<close>,
    where \<open>m\<close> is the message of \<^verbatim>\<open>lastError\<close>, or \<open>None\<close> when there is no last error.
\<close>

datatype message =
    Literal string
  | Detail json
  | ApiErrorStatus int
  | RequestTimeoutAfter int
  | RequestFailedAfter int "message option"

text \<open>An error object: its class, its message, and the fields \<^verbatim>\<open>statusCode\<close> and
  \<^verbatim>\<open>response\<close> (here \<open>payload\<close>), which are \<open>None\<close> when the constructor was not
  given them.\<close>

datatype error =
  Error (cls: error_class) (msg: message) (statusCode: "int option") (payload: "json option")

text \<open>
  What one \<^verbatim>\<open>fetch\<close> call settles to. A response is observed through its status, its
  \<^verbatim>\<open>Retry-After\<close> header (\<open>None\<close> when \<^verbatim>\<open>headers.get\<close> returns \<^verbatim>\<open>null\<close>), the
  value \<^verbatim>\<open>response.json()\<close> resolves to (\<open>None\<close> when it rejects) and the bytes
  \<^verbatim>\<open>response.arrayBuffer()\<close> resolves to (\<open>None\<close> when it rejects).
\<close>

record response =
  status :: int
  retry_after :: "string option"
  json_body :: "json option"
  bytes_body :: "string option"

datatype fetch_outcome = Rejects error | Resolves response

text \<open>
  The client: its configuration and its in-flight counter. The numbers of the source are
  JavaScript numbers; here they are integers, which is what a caller passes for a
  timeout in milliseconds, a number of retries and a number of calls.
\<close>

record client =
  apiKey :: string
  baseUrl :: string
  timeout :: int
  maxRetries :: int
  maxConcurrent :: int
  activeRequests :: int

record client_options =
  opt_apiKey :: string
  opt_baseUrl :: "string option"
  opt_timeout :: "int option"
  opt_maxRetries :: "int option"
  opt_maxConcurrent :: "int option"

section \<open>The constructor\<close>

text \<open>\<^verbatim>\<open>s.replace(/\/$/, '')\<close>: one slash at the end of the string is removed.\<close>

definition strip_trailing_slash :: "string \<Rightarrow> string" where
  "strip_trailing_slash s = (if s \<noteq> [] \<and> last s = CHR ''/'' then butlast s else s)"

text \<open>\<^verbatim>\<open>x || d\<close> for an optional number: absent and zero are both falsy.\<close>

definition or_number :: "int option \<Rightarrow> int \<Rightarrow> int" where
  "or_number x d = (case x of None \<Rightarrow> d | Some n \<Rightarrow> if n = 0 then d else n)"

text \<open>\<^verbatim>\<open>x || d\<close> for an optional string: absent and empty are both falsy.\<close>

definition or_string :: "string option \<Rightarrow> string \<Rightarrow> string" where
  "or_string x d = (case x of None \<Rightarrow> d | Some s \<Rightarrow> if s = [] then d else s)"

definition TranslatePlusClient :: "client_options \<Rightarrow> error + client" where
  "TranslatePlusClient options =
     (if opt_apiKey options = [] then
        Inl (Error TranslatePlusValidationError (Literal ''API key is required'') None None)
      else
        Inr \<lparr> apiKey = opt_apiKey options,
              baseUrl = strip_trailing_slash
                (or_string (opt_baseUrl options) ''https://api.translateplus.io''),
              timeout = or_number (opt_timeout options) 30000,
              maxRetries = or_number (opt_maxRetries options) 3,
              maxConcurrent = or_number (opt_maxConcurrent options) 5,
              activeRequests = 0 \<rparr>)"

section \<open>The request executor\<close>

subsection \<open>Reading the Retry-After header\<close>

text \<open>
  \<^verbatim>\<open>parseInt(s, 10)\<close>: leading white space is skipped, one sign is read, then the longest
  run of decimal digits; the result is \<^verbatim>\<open>NaN\<close> (here \<open>None\<close>) when there is no digit.
  A header value reaches the client as a string of code units below 256, one \<open>char\<close>
  each; the white space and line terminators of ECMAScript in that range are the tab,
  line feed, vertical tab, form feed, carriage return, space and no-break space
  (\<open>0xA0\<close>). The value is the exact integer, which the double of the source equals below
  \<open>2 ^ 53\<close>.
\<close>

definition is_space :: "char \<Rightarrow> bool" where
  "is_space c =
     (c \<in> set [CHR '' '', CHR 0x09, CHR 0x0A, CHR 0x0B, CHR 0x0C, CHR 0x0D, CHR 0xA0])"

definition is_digit :: "char \<Rightarrow> bool" where
  "is_digit c = (c \<in> set ''0123456789'')"

definition digit_value :: "char \<Rightarrow> int" where
  "digit_value c = int (of_char c) - 48"

definition digits_value :: "string \<Rightarrow> int" where
  "digits_value ds = foldl (\<lambda>acc c. acc * 10 + digit_value c) 0 ds"

definition parseInt :: "string \<Rightarrow> int option" where
  "parseInt s =
     (let t = dropWhile is_space s;
          neg = (t \<noteq> [] \<and> hd t = CHR ''-'');
          u = (if t \<noteq> [] \<and> (hd t = CHR ''-'' \<or> hd t = CHR ''+'') then tl t else t);
          z = takeWhile is_digit u
      in if z = [] then None
         else Some (if neg then - digits_value z else digits_value z))"

text \<open>\<^verbatim>\<open>parseInt(response.headers.get('Retry-After') || '2', 10)\<close>\<close>

definition retryAfter :: "response \<Rightarrow> int option" where
  "retryAfter r = parseInt (or_string (retry_after r) ''2'')"

text \<open>
  \<^verbatim>\<open>Math.min(retryAfter * 1000, Math.pow(2, attempt) * 1000)\<close>; \<^verbatim>\<open>NaN\<close> is contagious.
\<close>

definition rate_limit_delay :: "response \<Rightarrow> nat \<Rightarrow> int option" where
  "rate_limit_delay r attempt =
     (case retryAfter r of
        None \<Rightarrow> None
      | Some n \<Rightarrow> Some (min (n * 1000) (2 ^ attempt * 1000)))"

definition backoff :: "nat \<Rightarrow> int option" where
  "backoff attempt = Some (2 ^ attempt * 1000)"

subsection \<open>The error payload\<close>

text \<open>\<^verbatim>\<open>await response.json().catch(() => ({}))\<close>\<close>

definition errorData :: "response \<Rightarrow> json" where
  "errorData r = (case json_body r of None \<Rightarrow> JObj [] | Some j \<Rightarrow> j)"

text \<open>
  \<^verbatim>\<open>errorData.detail || `API error: ${response.status}`\<close>. Reading a property of
  \<^verbatim>\<open>null\<close> throws a \<^verbatim>\<open>TypeError\<close>; a value that is no object has no such property.
\<close>

definition errorMessage :: "json \<Rightarrow> int \<Rightarrow> error + message" where
  "errorMessage ed st =
     (case ed of
        JNull \<Rightarrow> Inl (Error TypeError (Literal ''Cannot read properties of null'') None None)
      | JObj kvs \<Rightarrow>
          (case map_of kvs ''detail'' of
             None \<Rightarrow> Inr (ApiErrorStatus st)
           | Some d \<Rightarrow> if truthy d then Inr (Detail d) else Inr (ApiErrorStatus st))
      | _ \<Rightarrow> Inr (ApiErrorStatus st))"

subsection \<open>One attempt of the retry loop\<close>

text \<open>
  How a block of the loop body ends: it returns from the function, it sleeps for the
  given delay and continues with the next attempt, it throws, or it runs to its end.
\<close>

datatype flow =
    Returns json
  | Continues "int option"
  | Throws error
  | Falls

text \<open>The inner \<^verbatim>\<open>try\<close> block, from the settled fetch on.\<close>

definition try_block :: "client \<Rightarrow> nat \<Rightarrow> fetch_outcome \<Rightarrow> flow" where
  "try_block c attempt fo =
     (case fo of
        Rejects e \<Rightarrow> Throws e
      | Resolves r \<Rightarrow>
          if status r = 429 then
            (if int attempt < maxRetries c then Continues (rate_limit_delay r attempt)
             else Throws (Error TranslatePlusRateLimitError
                    (Literal ''Rate limit exceeded. Please try again later.'')
                    (Some (status r)) (Some (errorData r))))
          else if status r \<ge> 400 then
            (case errorMessage (errorData r) (status r) of
               Inl e \<Rightarrow> Throws e
             | Inr m \<Rightarrow>
                 if status r = 401 \<or> status r = 403 then
                   Throws (Error TranslatePlusAuthenticationError m
                     (Some (status r)) (Some (errorData r)))
                 else if status r = 402 then
                   Throws (Error TranslatePlusInsufficientCreditsError m
                     (Some (status r)) (Some (errorData r)))
                 else if status r = 429 then
                   Throws (Error TranslatePlusRateLimitError m
                     (Some (status r)) (Some (errorData r)))
                 else
                   Throws (Error TranslatePlusAPIError m
                     (Some (status r)) (Some (errorData r))))
          else
            (case json_body r of
               None \<Rightarrow> Throws (Error OtherError (Literal ''invalid json response body'') None None)
             | Some j \<Rightarrow> Returns j))"

text \<open>
  The inner \<^verbatim>\<open>catch (fetchError)\<close> and the outer \<^verbatim>\<open>catch (error)\<close>; each yields the
  flow and the new value of \<^verbatim>\<open>lastError\<close>.
\<close>

definition catch_fetchError ::
  "client \<Rightarrow> nat \<Rightarrow> error \<Rightarrow> error option \<Rightarrow> flow \<times> error option" where
  "catch_fetchError c attempt fetchError lastError =
     (if cls fetchError = AbortError then
        (Throws (Error TranslatePlusAPIError (RequestTimeoutAfter (timeout c)) None None),
         lastError)
      else if cls fetchError = TranslatePlusAuthenticationError
            \<or> cls fetchError = TranslatePlusInsufficientCreditsError then
        (Throws fetchError, lastError)
      else if int attempt < maxRetries c then
        (Continues (backoff attempt), Some fetchError)
      else
        (Falls, Some fetchError))"

definition catch_error ::
  "client \<Rightarrow> nat \<Rightarrow> error \<Rightarrow> error option \<Rightarrow> flow \<times> error option" where
  "catch_error c attempt err lastError =
     (if cls err = TranslatePlusAuthenticationError
        \<or> cls err = TranslatePlusInsufficientCreditsError then
        (Throws err, lastError)
      else if int attempt < maxRetries c then
        (Continues (backoff attempt), Some err)
      else
        (Falls, Some err))"

definition attempt_body ::
  "client \<Rightarrow> nat \<Rightarrow> fetch_outcome \<Rightarrow> error option \<Rightarrow> flow \<times> error option" where
  "attempt_body c attempt fo lastError =
     (case try_block c attempt fo of
        Throws fetchError \<Rightarrow>
          (case catch_fetchError c attempt fetchError lastError of
             (Throws err, lastError') \<Rightarrow> catch_error c attempt err lastError'
           | other \<Rightarrow> other)
      | f \<Rightarrow> (f, lastError))"

subsection \<open>The retry loop\<close>

text \<open>
  What a call did: its result (\<open>Inl\<close> the error it raised), the number of \<^verbatim>\<open>fetch\<close>
  calls it made, and the delays it handed to \<^verbatim>\<open>setTimeout\<close> between attempts, in order.
\<close>

record 'a run =
  outcome :: "error + 'a"
  calls :: nat
  waits :: "int option list"

text \<open>
  \<^verbatim>\<open>for (let attempt = 0; attempt <= this.maxRetries; attempt++)\<close> and the
  \<^verbatim>\<open>throw\<close> that follows the loop. \<open>net k\<close> is what the fetch of attempt \<open>k\<close> settles to.
\<close>

text \<open>The error thrown after the loop: \<^verbatim>\<open>// If we get here, all retries failed\<close>.\<close>

definition retries_failed :: "client \<Rightarrow> error option \<Rightarrow> error" where
  "retries_failed c lastError =
     Error TranslatePlusAPIError
       (RequestFailedAfter (maxRetries c) (map_option msg lastError)) None None"

function retry_loop :: "client \<Rightarrow> (nat \<Rightarrow> fetch_outcome) \<Rightarrow> nat \<Rightarrow> error option \<Rightarrow> json run" where
  "retry_loop c net attempt lastError =
     (if int attempt \<le> maxRetries c then
        (case attempt_body c attempt (net attempt) lastError of
           (Returns j, lastError') \<Rightarrow> \<lparr> outcome = Inr j, calls = 1, waits = [] \<rparr>
         | (Throws e, lastError') \<Rightarrow> \<lparr> outcome = Inl e, calls = 1, waits = [] \<rparr>
         | (Continues d, lastError') \<Rightarrow>
             (let r = retry_loop c net (Suc attempt) lastError'
              in r \<lparr> calls := Suc (calls r), waits := d # waits r \<rparr>)
         | (Falls, lastError') \<Rightarrow>
             (let r = retry_loop c net (Suc attempt) lastError'
              in r \<lparr> calls := Suc (calls r) \<rparr>))
      else
        \<lparr> outcome = Inl (retries_failed c lastError), calls = 0, waits = [] \<rparr>)"
  by pat_completeness auto
termination
  by (relation "measure (\<lambda>(c, net, attempt, lastError). nat (maxRetries c + 1 - int attempt))") auto

declare retry_loop.simps [simp del]

subsection \<open>makeRequest\<close>

text \<open>
  The request a wrapper hands to the executor. The network answers attempt \<open>k\<close> of a
  request \<open>req\<close> with \<open>net req k\<close>.
\<close>

record request =
  http_method :: string
  endpoint :: string
  data :: "json option"

text \<open>
  One call of \<^verbatim>\<open>makeRequest\<close> run on its own, from its first line to its \<^verbatim>\<open>finally\<close>.
  No other call is in flight that could free a slot, so a call that finds the counter at
  the cap polls for ever: the result is \<open>None\<close>. The interleaving of several calls is
  the subject of a later section. Building the URL, the headers, the body and the query
  string comes before the loop and touches neither the counter nor the attempts; it is
  left out.
\<close>

definition makeRequest ::
  "(request \<Rightarrow> nat \<Rightarrow> fetch_outcome) \<Rightarrow> request \<Rightarrow> client \<Rightarrow> (json run \<times> client) option" where
  "makeRequest net req c =
     (if activeRequests c \<ge> maxConcurrent c then None
      else
        (let c1 = c \<lparr> activeRequests := activeRequests c + 1 \<rparr>;
             r = retry_loop c1 (net req) 0 None
         in Some (r, c1 \<lparr> activeRequests := activeRequests c1 - 1 \<rparr>)))"

section \<open>The wrappers\<close>

record translate_options =
  opt_text :: string
  opt_source :: "string option"
  opt_target :: string

definition translate_request :: "translate_options \<Rightarrow> request" where
  "translate_request options =
     \<lparr> http_method = ''POST'', endpoint = ''/v2/translate'',
       data = Some (JObj [(''text'', JStr (opt_text options)),
                          (''source'', JStr (or_string (opt_source options) ''auto'')),
                          (''target'', JStr (opt_target options))]) \<rparr>"

definition translate ::
  "(request \<Rightarrow> nat \<Rightarrow> fetch_outcome) \<Rightarrow> translate_options \<Rightarrow> client \<Rightarrow> (json run \<times> client) option" where
  "translate net options c = makeRequest net (translate_request options) c"

record batch_translate_options =
  opt_texts :: "string list option"
  opt_batch_source :: "string option"
  opt_batch_target :: string

definition batch_request :: "batch_translate_options \<Rightarrow> request" where
  "batch_request options =
     \<lparr> http_method = ''POST'', endpoint = ''/v2/translate/batch'',
       data = Some (JObj [(''texts'', JArr (map JStr (case opt_texts options of None \<Rightarrow> [] | Some ts \<Rightarrow> ts))),
                          (''source'', JStr (or_string (opt_batch_source options) ''auto'')),
                          (''target'', JStr (opt_batch_target options))]) \<rparr>"

text \<open>\<^verbatim>\<open>!options.texts\<close> holds for a missing array; an array, even an empty one, is truthy.\<close>

definition translateBatch ::
  "(request \<Rightarrow> nat \<Rightarrow> fetch_outcome) \<Rightarrow> batch_translate_options \<Rightarrow> client \<Rightarrow> (json run \<times> client) option" where
  "translateBatch net options c =
     (if opt_texts options = None \<or> length (the (opt_texts options)) = 0 then
        Some (\<lparr> outcome = Inl (Error TranslatePlusValidationError
                 (Literal ''Texts array cannot be empty'') None None),
                calls = 0, waits = [] \<rparr>, c)
      else if length (the (opt_texts options)) > 100 then
        Some (\<lparr> outcome = Inl (Error TranslatePlusValidationError
                 (Literal ''Maximum 100 texts allowed per batch request'') None None),
                calls = 0, waits = [] \<rparr>, c)
      else makeRequest net (batch_request options) c)"

text \<open>
  \<^verbatim>\<open>downloadI18nFile\<close> calls \<^verbatim>\<open>fetch\<close> itself: no admission, no retry loop, no
  \<^verbatim>\<open>catch\<close>. The client is returned as it was.
\<close>

definition download_result :: "fetch_outcome \<Rightarrow> error + string" where
  "download_result fo =
     (case fo of
        Rejects e \<Rightarrow> Inl e
      | Resolves r \<Rightarrow>
          if status r \<ge> 400 then
            (case errorMessage (errorData r) (status r) of
               Inl e \<Rightarrow> Inl e
             | Inr m \<Rightarrow> Inl (Error TranslatePlusAPIError m (Some (status r)) (Some (errorData r))))
          else
            (case bytes_body r of
               None \<Rightarrow> Inl (Error OtherError (Literal ''body stream failed'') None None)
             | Some b \<Rightarrow> Inr b))"

definition download_request :: "string \<Rightarrow> string \<Rightarrow> request" where
  "download_request jobId languageCode =
     \<lparr> http_method = ''GET'',
       endpoint = ''/v2/i18n/jobs/'' @ jobId @ ''/download/'' @ languageCode,
       data = None \<rparr>"

definition downloadI18nFile ::
  "(request \<Rightarrow> nat \<Rightarrow> fetch_outcome) \<Rightarrow> string \<Rightarrow> string \<Rightarrow> client \<Rightarrow> string run \<times> client" where
  "downloadI18nFile net jobId languageCode c =
     (\<lparr> outcome = download_result (net (download_request jobId languageCode) 0),
        calls = 1, waits = [] \<rparr>, c)"

text \<open>
  \<^verbatim>\<open>Promise.all\<close> over promises that all fulfil: the value of promise \<open>i\<close> is stored in
  slot \<open>i\<close> when it settles, and the array is handed over once every slot is filled.
  \<open>order\<close> lists the indices in the order in which the promises settle; while a promise
  is missing from it the result is pending (\<open>None\<close>).
\<close>

definition promise_all :: "'a list \<Rightarrow> nat list \<Rightarrow> 'a list option" where
  "promise_all vals order =
     (let n = length vals;
          slots = foldl (\<lambda>s i. if i < n then s[i := Some (vals ! i)] else s)
                    (replicate n None) order
      in if list_all (\<lambda>x. x \<noteq> None) slots then Some (map the slots) else None)"

text \<open>A slot of the array \<^verbatim>\<open>translateConcurrent\<close> returns: the decoded response, or
  \<^verbatim>\<open>{ error: error.message }\<close>.\<close>

datatype slot = Result json | ErrorIndicator message

text \<open>
  \<open>settle i req\<close> is what the promise of the \<open>i\<close>-th \<^verbatim>\<open>translate\<close> call, made with request
  \<open>req\<close>, settles to. The parameter \<^verbatim>\<open>source\<close> defaults to \<^verbatim>\<open>'auto'\<close> when it is
  not given.
\<close>

definition translateConcurrent ::
  "(nat \<Rightarrow> request \<Rightarrow> error + json) \<Rightarrow> string list \<Rightarrow> string option \<Rightarrow> string \<Rightarrow> nat list
     \<Rightarrow> slot list option" where
  "translateConcurrent settle texts source target order =
     (let src = (case source of None \<Rightarrow> ''auto'' | Some s \<Rightarrow> s);
          promises = map (\<lambda>(i, t).
              case settle i (translate_request
                     \<lparr> opt_text = t, opt_source = Some src, opt_target = target \<rparr>) of
                Inr r \<Rightarrow> Result r
              | Inl e \<Rightarrow> ErrorIndicator (msg e))
            (enumerate 0 texts)
      in promise_all promises order)"

section \<open>Interleaved calls\<close>

text \<open>
  The calls of one client run on one thread and give way to each other at every
  \<^verbatim>\<open>await\<close>. Between two such points a call runs alone, so the state of a call is the
  \<^verbatim>\<open>await\<close> it is suspended at:
  \<^item> \<open>Waiting\<close>: in the admission loop, asleep for 10 ms;
  \<^item> \<open>Fetching k e\<close>: admitted, the fetch of attempt \<open>k\<close> is on the network, \<^verbatim>\<open>lastError\<close> is \<open>e\<close>;
  \<^item> \<open>Sleeping k e\<close>: admitted, in the delay that follows attempt \<open>k\<close>;
  \<^item> \<open>Settled r\<close>: the call has left its \<^verbatim>\<open>finally\<close> block with result \<open>r\<close>;
  \<^item> \<open>Downloading\<close>, \<open>Downloaded r\<close>: a call of \<^verbatim>\<open>downloadI18nFile\<close>, with its fetch on
    the network, and settled.
  Reading the body of a response is taken together with the fetch that produced it.
\<close>

datatype pc =
    Waiting
  | Fetching nat "error option"
  | Sleeping nat "error option"
  | Settled "error + json"
  | Downloading
  | Downloaded "error + string"

text \<open>\<^verbatim>\<open>finally { this.activeRequests--; }\<close>\<close>

definition finally_block :: "client \<Rightarrow> client" where
  "finally_block c = c \<lparr> activeRequests := activeRequests c - 1 \<rparr>"

text \<open>The head of the retry loop: the next fetch is issued, or the loop is left, the
  final error is thrown and the \<^verbatim>\<open>finally\<close> block runs.\<close>

definition loop_head :: "client \<Rightarrow> nat \<Rightarrow> error option \<Rightarrow> client \<times> pc" where
  "loop_head c attempt lastError =
     (if int attempt \<le> maxRetries c then (c, Fetching attempt lastError)
      else (finally_block c, Settled (Inl (retries_failed c lastError))))"

text \<open>One test of the admission loop and, when it lets the call through, the increment
  and the first pass through the head of the retry loop.\<close>

definition admission :: "client \<Rightarrow> client \<times> pc" where
  "admission c =
     (if activeRequests c \<ge> maxConcurrent c then (c, Waiting)
      else loop_head (c \<lparr> activeRequests := activeRequests c + 1 \<rparr>) 0 None)"

text \<open>The call resumes with the settled fetch of attempt \<open>attempt\<close>.\<close>

definition fetch_settles :: "client \<Rightarrow> nat \<Rightarrow> error option \<Rightarrow> fetch_outcome \<Rightarrow> client \<times> pc" where
  "fetch_settles c attempt lastError fo =
     (case attempt_body c attempt fo lastError of
        (Returns j, lastError') \<Rightarrow> (finally_block c, Settled (Inr j))
      | (Throws e, lastError') \<Rightarrow> (finally_block c, Settled (Inl e))
      | (Continues d, lastError') \<Rightarrow> (c, Sleeping attempt lastError')
      | (Falls, lastError') \<Rightarrow> loop_head c (Suc attempt) lastError')"

text \<open>
  What can happen next: a caller starts a call, or the call at position \<open>i\<close> resumes
  because its timer fired or its fetch settled (with an outcome the network chooses).
\<close>

datatype event =
    CallMakeRequest
  | CallDownload
  | Poll nat
  | FetchSettles nat fetch_outcome
  | TimerFires nat
  | DownloadSettles nat fetch_outcome

fun fire :: "event \<Rightarrow> client \<times> pc list \<Rightarrow> (client \<times> pc list) option" where
  "fire CallMakeRequest (c, ps) =
     (case admission c of (c', p) \<Rightarrow> Some (c', ps @ [p]))"
| "fire CallDownload (c, ps) = Some (c, ps @ [Downloading])"
| "fire (Poll i) (c, ps) =
     (if i < length ps \<and> ps ! i = Waiting
      then (case admission c of (c', p) \<Rightarrow> Some (c', ps[i := p]))
      else None)"
| "fire (FetchSettles i fo) (c, ps) =
     (if i < length ps then
        (case ps ! i of
           Fetching attempt lastError \<Rightarrow>
             (case fetch_settles c attempt lastError fo of (c', p) \<Rightarrow> Some (c', ps[i := p]))
         | _ \<Rightarrow> None)
      else None)"
| "fire (TimerFires i) (c, ps) =
     (if i < length ps then
        (case ps ! i of
           Sleeping attempt lastError \<Rightarrow>
             (case loop_head c (Suc attempt) lastError of (c', p) \<Rightarrow> Some (c', ps[i := p]))
         | _ \<Rightarrow> None)
      else None)"
| "fire (DownloadSettles i fo) (c, ps) =
     (if i < length ps \<and> ps ! i = Downloading
      then Some (c, ps[i := Downloaded (download_result fo)])
      else None)"

text \<open>A schedule is a list of events; it is \<open>None\<close> when one of them cannot happen.\<close>

fun run_events :: "event list \<Rightarrow> client \<times> pc list \<Rightarrow> (client \<times> pc list) option" where
  "run_events [] s = Some s"
| "run_events (e # es) s = (case fire e s of None \<Rightarrow> None | Some s' \<Rightarrow> run_events es s')"

text \<open>The calls that hold a slot, and the calls that have a fetch on the network.\<close>

fun admitted :: "pc \<Rightarrow> bool" where
  "admitted (Fetching k e) = True"
| "admitted (Sleeping k e) = True"
| "admitted p = False"

fun on_network :: "pc \<Rightarrow> bool" where
  "on_network (Fetching k e) = True"
| "on_network Downloading = True"
| "on_network p = False"

fun pending :: "pc \<Rightarrow> bool" where
  "pending Waiting = True"
| "pending (Fetching k e) = True"
| "pending (Sleeping k e) = True"
| "pending p = False"

text \<open>A network that gives every attempt of every request the same answer.\<close>

definition always :: "fetch_outcome \<Rightarrow> request \<Rightarrow> nat \<Rightarrow> fetch_outcome" where
  "always fo req k = fo"

section \<open>Properties\<close>

subsection \<open>Inputs and notions of the statements\<close>

definition default_client :: client where
  "default_client = \<lparr> apiKey = ''test-api-key'', baseUrl = ''https://api.translateplus.io'',
      timeout = 30000, maxRetries = 3, maxConcurrent = 5, activeRequests = 0 \<rparr>"

definition ok_response :: response where
  "ok_response = \<lparr> status = 200, retry_after = None,
      json_body = Some (JObj [(''translations'', JArr [])]), bytes_body = None \<rparr>"

definition hello_batch :: batch_translate_options where
  "hello_batch = \<lparr> opt_texts = Some [''Hello''], opt_batch_source = None,
      opt_batch_target = ''fr'' \<rparr>"

definition empty_batch :: batch_translate_options where
  "empty_batch = \<lparr> opt_texts = Some [], opt_batch_source = None, opt_batch_target = ''fr'' \<rparr>"

definition zero_options :: client_options where
  "zero_options = \<lparr> opt_apiKey = ''key'', opt_baseUrl = Some [], opt_timeout = Some 0,
      opt_maxRetries = Some 0, opt_maxConcurrent = Some 0 \<rparr>"

definition single_slot_client :: client where
  "single_slot_client = \<lparr> apiKey = ''test-api-key'', baseUrl = ''https://api.translateplus.io'',
      timeout = 30000, maxRetries = 3, maxConcurrent = 1, activeRequests = 0 \<rparr>"

definition forbidden_response :: response where
  "forbidden_response = \<lparr> status = 403, retry_after = None,
      json_body = Some (JObj [(''detail'', JStr ''Invalid API key'')]), bytes_body = None \<rparr>"

text \<open>The in-flight counter agrees with the calls that hold a slot.\<close>

definition counter_exact :: "client \<times> pc list \<Rightarrow> bool" where
  "counter_exact s = (activeRequests (fst s) = int (length (filter admitted (snd s))))"

text \<open>The calls of the executor that have a fetch on the network.\<close>

fun executor_fetch :: "pc \<Rightarrow> bool" where
  "executor_fetch (Fetching k e) = True"
| "executor_fetch p = False"

text \<open>Translating \<open>A\<close> succeeds and translating \<open>B\<close> fails, whatever their positions.\<close>

definition a_succeeds_b_fails :: "nat \<Rightarrow> request \<Rightarrow> error + json" where
  "a_succeeds_b_fails i req =
     (if data req = Some (JObj [(''text'', JStr ''A''), (''source'', JStr ''en''),
                                (''target'', JStr ''fr'')])
      then Inr (JObj [(''translations'', JObj [(''translation'', JStr ''A-fr'')])])
      else Inl (Error TranslatePlusAPIError
                  (RequestFailedAfter 3 (Some (Literal ''socket hang up''))) None None))"

definition hello_request :: request where
  "hello_request = translate_request
     \<lparr> opt_text = ''Hello'', opt_source = Some ''en'', opt_target = ''fr'' \<rparr>"

definition server_error_response :: response where
  "server_error_response = \<lparr> status = 500, retry_after = None,
      json_body = Some (JObj [(''detail'', JStr ''Internal Server Error'')]), bytes_body = None \<rparr>"

definition rate_limited_response :: response where
  "rate_limited_response = \<lparr> status = 429, retry_after = Some ''60'',
      json_body = Some (JObj [(''detail'', JStr ''Rate limit exceeded'')]), bytes_body = None \<rparr>"

definition bare_rate_limited_response :: response where
  "bare_rate_limited_response = \<lparr> status = 429, retry_after = None,
      json_body = None, bytes_body = None \<rparr>"

definition dated_retry_response :: response where
  "dated_retry_response = \<lparr> status = 429, retry_after = Some ''Wed, 21 Oct 2015 07:28:00 GMT'',
      json_body = Some (JObj [(''detail'', JStr ''Rate limit exceeded'')]), bytes_body = None \<rparr>"

definition null_unauthorized_response :: response where
  "null_unauthorized_response = \<lparr> status = 401, retry_after = None,
      json_body = Some JNull, bytes_body = None \<rparr>"

definition null_not_found_response :: response where
  "null_not_found_response = \<lparr> status = 404, retry_after = None,
      json_body = Some JNull, bytes_body = Some ''null'' \<rparr>"

text \<open>The error the inner try block throws for a response with an error status.\<close>

definition status_error :: "response \<Rightarrow> error" where
  "status_error r =
     (case errorMessage (errorData r) (status r) of
        Inl e \<Rightarrow> e
      | Inr m \<Rightarrow> Error TranslatePlusAPIError m (Some (status r)) (Some (errorData r)))"

definition rate_limit_error :: "response \<Rightarrow> error" where
  "rate_limit_error r =
     Error TranslatePlusRateLimitError (Literal ''Rate limit exceeded. Please try again later.'')
       (Some (status r)) (Some (errorData r))"

subsection \<open>Unfolding the retry loop\<close>

lemma retry_loop_exit:
  "\<not> int attempt \<le> maxRetries c \<Longrightarrow>
     retry_loop c net attempt le = \<lparr> outcome = Inl (retries_failed c le), calls = 0, waits = [] \<rparr>"
  by (simp add: retry_loop.simps [of c net attempt])

lemma retry_loop_Continues:
  "int attempt \<le> maxRetries c \<Longrightarrow> attempt_body c attempt (net attempt) le = (Continues d, le') \<Longrightarrow>
     retry_loop c net attempt le =
       (let r = retry_loop c net (Suc attempt) le' in r \<lparr> calls := Suc (calls r), waits := d # waits r \<rparr>)"
  by (simp add: retry_loop.simps [of c net attempt])

lemma retry_loop_Falls:
  "int attempt \<le> maxRetries c \<Longrightarrow> attempt_body c attempt (net attempt) le = (Falls, le') \<Longrightarrow>
     retry_loop c net attempt le =
       (let r = retry_loop c net (Suc attempt) le' in r \<lparr> calls := Suc (calls r) \<rparr>)"
  by (simp add: retry_loop.simps [of c net attempt])

lemma retry_loop_Throws:
  "int attempt \<le> maxRetries c \<Longrightarrow> attempt_body c attempt (net attempt) le = (Throws e, le') \<Longrightarrow>
     retry_loop c net attempt le = \<lparr> outcome = Inl e, calls = 1, waits = [] \<rparr>"
  by (simp add: retry_loop.simps [of c net attempt])

lemma retry_loop_Returns:
  "int attempt \<le> maxRetries c \<Longrightarrow> attempt_body c attempt (net attempt) le = (Returns j, le') \<Longrightarrow>
     retry_loop c net attempt le = \<lparr> outcome = Inr j, calls = 1, waits = [] \<rparr>"
  by (simp add: retry_loop.simps [of c net attempt])

lemma makeRequest_admitted:
  "activeRequests c < maxConcurrent c \<Longrightarrow>
     makeRequest net req c
       = Some (retry_loop (c \<lparr> activeRequests := activeRequests c + 1 \<rparr>) (net req) 0 None, c)"
  by (simp add: makeRequest_def Let_def)

lemma makeRequest_restores_counter:
  "makeRequest net req c = Some (r, c') \<Longrightarrow> c' = c"
  by (auto simp: makeRequest_def Let_def split: if_splits)

lemma try_block_counter_irrelevant:
  "try_block (c \<lparr> activeRequests := a \<rparr>) k fo = try_block c k fo"
  by (cases fo) (simp_all add: try_block_def)

lemma catch_fetchError_counter_irrelevant:
  "catch_fetchError (c \<lparr> activeRequests := a \<rparr>) k e le = catch_fetchError c k e le"
  by (simp add: catch_fetchError_def)

lemma catch_error_counter_irrelevant:
  "catch_error (c \<lparr> activeRequests := a \<rparr>) k e le = catch_error c k e le"
  by (simp add: catch_error_def)

lemma attempt_body_counter_irrelevant:
  "attempt_body (c \<lparr> activeRequests := a \<rparr>) k fo le = attempt_body c k fo le"
  unfolding attempt_body_def try_block_counter_irrelevant
    catch_fetchError_counter_irrelevant catch_error_counter_irrelevant
  by (rule refl)

lemma retry_loop_all_retried:
  assumes cont: "\<And>k le. int k < maxRetries c \<Longrightarrow>
                   \<exists>le'. attempt_body c k (net k) le = (Continues (d k), le')"
    and last: "\<And>le. attempt_body c (nat (maxRetries c)) (net (nat (maxRetries c))) le
                   = (Falls, Some e)"
  shows "n = nat (maxRetries c) - attempt \<Longrightarrow> int attempt \<le> maxRetries c \<Longrightarrow>
         retry_loop c net attempt le =
           \<lparr> outcome = Inl (retries_failed c (Some e)),
             calls = nat (maxRetries c) + 1 - attempt,
             waits = map d [attempt..<nat (maxRetries c)] \<rparr>"
proof (induction n arbitrary: attempt le)
  case 0
  then have a: "attempt = nat (maxRetries c)" by simp
  with "0.prems" have ex: "\<not> int (Suc attempt) \<le> maxRetries c" by simp
  from last a have "attempt_body c attempt (net attempt) le = (Falls, Some e)" by simp
  from retry_loop_Falls [where net = net, OF "0.prems"(2) this] retry_loop_exit [OF ex, of net "Some e"]
  show ?case using a by simp
next
  case (Suc n)
  then have lt: "int attempt < maxRetries c" by simp
  from cont [OF lt] obtain le' where
    ab: "attempt_body c attempt (net attempt) le = (Continues (d attempt), le')" by blast
  have n: "n = nat (maxRetries c) - Suc attempt" using Suc.prems by simp
  have le: "int (Suc attempt) \<le> maxRetries c" using lt by simp
  have up: "[attempt..<nat (maxRetries c)] = attempt # [Suc attempt..<nat (maxRetries c)]"
    using lt by (simp add: upt_conv_Cons)
  from retry_loop_Continues [where net = net, OF Suc.prems(2) ab] Suc.IH [OF n le, of le'] lt
  show ?case by (simp add: up Suc_diff_le)
qed

lemma makeRequest_all_retried:
  assumes cont: "\<And>k le. int k < maxRetries c \<Longrightarrow>
                   \<exists>le'. attempt_body c k (net req k) le = (Continues (d k), le')"
    and last: "\<And>le. attempt_body c (nat (maxRetries c)) (net req (nat (maxRetries c))) le
                   = (Falls, Some e)"
    and "0 \<le> maxRetries c" and "activeRequests c < maxConcurrent c"
  shows "makeRequest net req c =
           Some (\<lparr> outcome = Inl (Error TranslatePlusAPIError
                        (RequestFailedAfter (maxRetries c) (Some (msg e))) None None),
                   calls = nat (maxRetries c) + 1,
                   waits = map d [0..<nat (maxRetries c)] \<rparr>, c)"
proof -
  let ?c1 = "c \<lparr> activeRequests := activeRequests c + 1 \<rparr>"
  have m: "maxRetries ?c1 = maxRetries c" by simp
  have c1: "\<And>k le. int k < maxRetries ?c1 \<Longrightarrow>
              \<exists>le'. attempt_body ?c1 k (net req k) le = (Continues (d k), le')"
    using cont by (simp add: attempt_body_counter_irrelevant)
  have l1: "\<And>le. attempt_body ?c1 (nat (maxRetries ?c1)) (net req (nat (maxRetries ?c1))) le
                   = (Falls, Some e)"
    using last by (simp add: attempt_body_counter_irrelevant)
  have "retry_loop ?c1 (net req) 0 None =
           \<lparr> outcome = Inl (retries_failed ?c1 (Some e)),
             calls = nat (maxRetries ?c1) + 1 - 0,
             waits = map d [0..<nat (maxRetries ?c1)] \<rparr>"
    by (rule retry_loop_all_retried [where net = "net req" and d = d, OF c1 l1])
       (use assms(3) in simp_all)
  with assms(4) show ?thesis
    by (simp add: makeRequest_admitted retries_failed_def)
qed

lemma upt_3: "[0..<3] = [0, 1, 2]"
  by (simp add: upt_rec)

lemma retry_loop_ok_response:
  "0 \<le> maxRetries c \<Longrightarrow>
     retry_loop c (always (Resolves ok_response) req) 0 None
       = \<lparr> outcome = Inr (JObj [(''translations'', JArr [])]), calls = 1, waits = [] \<rparr>"
  by (simp add: retry_loop.simps always_def ok_response_def attempt_body_def try_block_def)

subsection \<open>Which errors leave the executor\<close>

lemma attempt_body_Throws_class:
  "attempt_body c attempt fo le = (Throws e, le') \<Longrightarrow>
     cls e = TranslatePlusAuthenticationError \<or> cls e = TranslatePlusInsufficientCreditsError"
  by (auto simp: attempt_body_def catch_fetchError_def catch_error_def
           split: flow.splits if_splits prod.splits)

lemma retry_loop_error_class:
  "outcome (retry_loop c net attempt le) = Inl e \<Longrightarrow>
     cls e = TranslatePlusAPIError \<or> cls e = TranslatePlusAuthenticationError
       \<or> cls e = TranslatePlusInsufficientCreditsError"
proof (induction c net attempt le rule: retry_loop.induct)
  case (1 c net attempt lastError)
  show ?case
  proof (cases "int attempt \<le> maxRetries c")
    case False
    with "1.prems" show ?thesis
      by (auto simp: retry_loop.simps [of c net attempt] retries_failed_def)
  next
    case True
    obtain f le' where ab: "attempt_body c attempt (net attempt) lastError = (f, le')"
      by (cases "attempt_body c attempt (net attempt) lastError")
    show ?thesis
    proof (cases f)
      case (Returns j)
      with True ab "1.prems" show ?thesis by (simp add: retry_loop.simps [of c net attempt])
    next
      case (Throws e')
      with True ab "1.prems" have "e = e'" by (simp add: retry_loop.simps [of c net attempt])
      with attempt_body_Throws_class [of c attempt "net attempt" lastError e' le'] ab Throws
      show ?thesis by simp
    next
      case (Continues d)
      with True ab "1.prems" have "outcome (retry_loop c net (Suc attempt) le') = Inl e"
        by (simp add: retry_loop.simps [of c net attempt] Let_def)
      with "1.IH"(1) [OF True ab [symmetric] Continues] show ?thesis by simp
    next
      case Falls
      with True ab "1.prems" have "outcome (retry_loop c net (Suc attempt) le') = Inl e"
        by (simp add: retry_loop.simps [of c net attempt] Let_def)
      with "1.IH"(2) [OF True ab [symmetric] Falls] show ?thesis by simp
    qed
  qed
qed

subsection \<open>The constructor's defaults\<close>

text \<open>
  Claim C10. When \<^verbatim>\<open>timeout\<close>, \<^verbatim>\<open>maxRetries\<close> or \<^verbatim>\<open>maxConcurrent\<close> is passed as 0, the
  client holds the default (30000, 3 and 5) and not 0, and an empty \<^verbatim>\<open>baseUrl\<close> is
  replaced by the production origin: a zero or empty override builds the same client as
  an absent one.
\<close>

theorem constructor_zero_overrides:
  assumes "opt_apiKey options \<noteq> []"
  shows "\<exists>c. TranslatePlusClient options = Inr c
      \<and> (opt_timeout options = Some 0 \<longrightarrow> timeout c = 30000)
      \<and> (opt_maxRetries options = Some 0 \<longrightarrow> maxRetries c = 3)
      \<and> (opt_maxConcurrent options = Some 0 \<longrightarrow> maxConcurrent c = 5)
      \<and> (opt_baseUrl options = Some [] \<longrightarrow> baseUrl c = ''https://api.translateplus.io'')
      \<and> TranslatePlusClient (options \<lparr> opt_timeout := Some 0 \<rparr>)
          = TranslatePlusClient (options \<lparr> opt_timeout := None \<rparr>)
      \<and> TranslatePlusClient (options \<lparr> opt_maxRetries := Some 0 \<rparr>)
          = TranslatePlusClient (options \<lparr> opt_maxRetries := None \<rparr>)
      \<and> TranslatePlusClient (options \<lparr> opt_maxConcurrent := Some 0 \<rparr>)
          = TranslatePlusClient (options \<lparr> opt_maxConcurrent := None \<rparr>)
      \<and> TranslatePlusClient (options \<lparr> opt_baseUrl := Some [] \<rparr>)
          = TranslatePlusClient (options \<lparr> opt_baseUrl := None \<rparr>)"
  using assms
  by (simp add: TranslatePlusClient_def or_number_def or_string_def strip_trailing_slash_def)

theorem constructor_zero_overrides_witness:
  "TranslatePlusClient zero_options
     = Inr \<lparr> apiKey = ''key'', baseUrl = ''https://api.translateplus.io'', timeout = 30000,
             maxRetries = 3, maxConcurrent = 5, activeRequests = 0 \<rparr>"
  using constructor_zero_overrides [of zero_options]
  by (auto simp: zero_options_def TranslatePlusClient_def)

subsection \<open>Validation in translateBatch\<close>

text \<open>
  Claim C8. For a \<^verbatim>\<open>texts\<close> array of length 0 or of length above 100,
  \<^verbatim>\<open>translateBatch\<close> raises a validation error, makes no network call and leaves the
  client as it was. For a length from 1 to 100 the call is the executor's call for the
  batch request, and no error it raises is a validation error.
\<close>

theorem translateBatch_length_validation:
  assumes "opt_texts options = Some ts"
  shows "(length ts = 0 \<or> length ts > 100 \<longrightarrow>
           (\<exists>e. translateBatch net options c
                   = Some (\<lparr> outcome = Inl e, calls = 0, waits = [] \<rparr>, c)
                 \<and> cls e = TranslatePlusValidationError))
       \<and> (1 \<le> length ts \<and> length ts \<le> 100 \<longrightarrow>
           translateBatch net options c = makeRequest net (batch_request options) c
           \<and> (\<forall>r c' e. translateBatch net options c = Some (r, c') \<and> outcome r = Inl e
                 \<longrightarrow> cls e \<noteq> TranslatePlusValidationError))"
proof (intro conjI impI)
  assume "length ts = 0 \<or> length ts > 100"
  with assms show "\<exists>e. translateBatch net options c
                   = Some (\<lparr> outcome = Inl e, calls = 0, waits = [] \<rparr>, c)
                 \<and> cls e = TranslatePlusValidationError"
    by (auto simp: translateBatch_def)
next
  assume len: "1 \<le> length ts \<and> length ts \<le> 100"
  with assms show eq: "translateBatch net options c = makeRequest net (batch_request options) c"
    by (auto simp: translateBatch_def)
  show "\<forall>r c' e. translateBatch net options c = Some (r, c') \<and> outcome r = Inl e
                 \<longrightarrow> cls e \<noteq> TranslatePlusValidationError"
  proof (intro allI impI)
    fix r c' e
    assume h: "translateBatch net options c = Some (r, c') \<and> outcome r = Inl e"
    with eq have "makeRequest net (batch_request options) c = Some (r, c')" by simp
    then have "r = retry_loop (c \<lparr> activeRequests := activeRequests c + 1 \<rparr>)
                     (net (batch_request options)) 0 None"
      by (auto simp: makeRequest_def Let_def split: if_splits)
    with h retry_loop_error_class show "cls e \<noteq> TranslatePlusValidationError"
      by fastforce
  qed
qed

theorem translateBatch_length_validation_witness:
  "translateBatch (always (Resolves ok_response)) empty_batch default_client
     = Some (\<lparr> outcome = Inl (Error TranslatePlusValidationError
                 (Literal ''Texts array cannot be empty'') None None),
                calls = 0, waits = [] \<rparr>, default_client)
   \<and> translateBatch (always (Resolves ok_response)) hello_batch default_client
     = Some (\<lparr> outcome = Inr (JObj [(''translations'', JArr [])]), calls = 1, waits = [] \<rparr>,
             default_client)"
  using translateBatch_length_validation [of empty_batch "[]"
          "always (Resolves ok_response)" default_client]
    translateBatch_length_validation [of hello_batch "[''Hello'']"
          "always (Resolves ok_response)" default_client]
  by (simp add: translateBatch_def empty_batch_def hello_batch_def makeRequest_def Let_def
        retry_loop_ok_response default_client_def)

subsection \<open>The in-flight counter\<close>

lemma filter_update_count:
  "i < length ps \<Longrightarrow>
     int (length (filter P (ps[i := p])))
       = int (length (filter P ps)) - (if P (ps ! i) then 1 else 0) + (if P p then 1 else 0)"
proof (induction ps arbitrary: i)
  case Nil
  then show ?case by simp
next
  case (Cons q qs)
  show ?case
  proof (cases i)
    case 0
    then show ?thesis by simp
  next
    case (Suc j)
    with Cons.prems have "j < length qs" by simp
    from Cons.IH [OF this] Suc show ?thesis by (auto split: if_splits)
  qed
qed

lemma loop_head_counter:
  "loop_head c k le = (c', p) \<Longrightarrow>
     activeRequests c' = activeRequests c - (if admitted p then 0 else 1)
     \<and> maxConcurrent c' = maxConcurrent c"
  by (auto simp: loop_head_def finally_block_def split: if_splits)

lemma admission_counter:
  "admission c = (c', p) \<Longrightarrow>
     activeRequests c' = activeRequests c + (if admitted p then 1 else 0)
     \<and> maxConcurrent c' = maxConcurrent c
     \<and> (p \<noteq> Waiting \<longrightarrow> activeRequests c < maxConcurrent c)"
  by (auto simp: admission_def loop_head_def finally_block_def split: if_splits)

lemma fetch_settles_counter:
  "fetch_settles c k le fo = (c', p) \<Longrightarrow>
     activeRequests c' = activeRequests c - (if admitted p then 0 else 1)
     \<and> maxConcurrent c' = maxConcurrent c"
  by (auto simp: fetch_settles_def finally_block_def dest: loop_head_counter
           split: prod.splits flow.splits)

lemma fire_counter_exact:
  assumes "fire e s = Some s'" and "counter_exact s"
  shows "counter_exact s' \<and> maxConcurrent (fst s') = maxConcurrent (fst s)
         \<and> (activeRequests (fst s) \<le> maxConcurrent (fst s)
              \<longrightarrow> activeRequests (fst s') \<le> maxConcurrent (fst s))"
proof -
  obtain c ps where s: "s = (c, ps)" by (cases s)
  show ?thesis
  proof (cases e)
    case CallMakeRequest
    with assms s show ?thesis
      by (auto simp: counter_exact_def split: prod.splits dest!: admission_counter)
  next
    case CallDownload
    with assms s show ?thesis by (auto simp: counter_exact_def)
  next
    case (Poll i)
    with assms s show ?thesis
      by (auto simp: counter_exact_def filter_update_count
               split: prod.splits if_splits dest!: admission_counter)
  next
    case (FetchSettles i fo)
    with assms s show ?thesis
      by (auto simp: counter_exact_def filter_update_count
               split: prod.splits if_splits pc.splits dest!: fetch_settles_counter)
  next
    case (TimerFires i)
    with assms s show ?thesis
      by (auto simp: counter_exact_def filter_update_count
               split: prod.splits if_splits pc.splits dest!: loop_head_counter)
  next
    case (DownloadSettles i fo)
    with assms s show ?thesis
      by (auto simp: counter_exact_def filter_update_count split: if_splits)
  qed
qed

lemma run_events_counter_exact:
  "run_events es s = Some s' \<Longrightarrow> counter_exact s \<Longrightarrow>
     activeRequests (fst s) \<le> maxConcurrent (fst s) \<Longrightarrow>
     counter_exact s' \<and> maxConcurrent (fst s') = maxConcurrent (fst s)
       \<and> activeRequests (fst s') \<le> maxConcurrent (fst s)"
proof (induction es arbitrary: s)
  case Nil
  then show ?case by simp
next
  case (Cons e es)
  from Cons.prems(1) obtain s1 where f: "fire e s = Some s1" and r: "run_events es s1 = Some s'"
    by (auto split: option.splits)
  from fire_counter_exact [OF f Cons.prems(2)] Cons.prems(3)
  have "counter_exact s1" "maxConcurrent (fst s1) = maxConcurrent (fst s)"
       "activeRequests (fst s1) \<le> maxConcurrent (fst s1)" by auto
  with Cons.IH [OF r] show ?case by simp
qed

lemma run_events_counter_only:
  "run_events es s = Some s' \<Longrightarrow> counter_exact s \<Longrightarrow> counter_exact s'"
proof (induction es arbitrary: s)
  case Nil
  then show ?case by simp
next
  case (Cons e es)
  from Cons.prems(1) obtain s1 where f: "fire e s = Some s1" and r: "run_events es s1 = Some s'"
    by (auto split: option.splits)
  from fire_counter_exact [OF f Cons.prems(2)] have "counter_exact s1" by simp
  with Cons.IH [OF r] show ?case by simp
qed

lemma no_pending_no_admitted: "\<not> list_ex pending ps \<Longrightarrow> filter admitted ps = []"
proof (induction ps)
  case Nil
  then show ?case by simp
next
  case (Cons p ps)
  then show ?case by (cases p) auto
qed

text \<open>
  Claim C2. Under every schedule of calls, polls, settled fetches and fired timers that
  starts from a fresh client, the in-flight counter equals the number of executor calls
  that have been admitted and have not left their \<^verbatim>\<open>finally\<close> block: each call adds one
  when it is admitted and takes one away when it finishes, whether it returns, raises or
  runs out of attempts. So the counter is zero once no executor call is pending.
\<close>

theorem activeRequests_counts_admitted_calls:
  assumes "run_events es (c0, []) = Some (c, ps)" and "activeRequests c0 = 0"
  shows "activeRequests c = int (length (filter admitted ps))
       \<and> (\<not> list_ex pending ps \<longrightarrow> activeRequests c = 0)"
proof -
  have "counter_exact (c0, [])" using assms(2) by (simp add: counter_exact_def)
  from run_events_counter_only [OF assms(1) this]
  have ex: "activeRequests c = int (length (filter admitted ps))"
    by (simp add: counter_exact_def)
  then show ?thesis using no_pending_no_admitted [of ps] by auto
qed

theorem activeRequests_counts_admitted_calls_witness:
  "run_events [CallMakeRequest, CallMakeRequest, FetchSettles 0 (Resolves ok_response), Poll 1,
       FetchSettles 1 (Resolves forbidden_response)] (single_slot_client, [])
     = Some (single_slot_client,
         [Settled (Inr (JObj [(''translations'', JArr [])])),
          Settled (Inl (Error TranslatePlusAuthenticationError (Detail (JStr ''Invalid API key''))
                     (Some 403) (Some (JObj [(''detail'', JStr ''Invalid API key'')]))))])
   \<and> activeRequests single_slot_client = 0"
  using activeRequests_counts_admitted_calls [of
      "[CallMakeRequest, CallMakeRequest, FetchSettles 0 (Resolves ok_response), Poll 1,
        FetchSettles 1 (Resolves forbidden_response)]"
      single_slot_client single_slot_client
      "[Settled (Inr (JObj [(''translations'', JArr [])])),
        Settled (Inl (Error TranslatePlusAuthenticationError (Detail (JStr ''Invalid API key''))
                   (Some 403) (Some (JObj [(''detail'', JStr ''Invalid API key'')]))))]"]
  by (simp add: single_slot_client_def admission_def loop_head_def fetch_settles_def
       attempt_body_def try_block_def catch_fetchError_def catch_error_def finally_block_def
       ok_response_def forbidden_response_def errorData_def errorMessage_def)

subsection \<open>A call on its own is a schedule of the interleaved model\<close>

lemma run_events_append:
  "run_events (es @ es') s = (case run_events es s of None \<Rightarrow> None | Some s' \<Rightarrow> run_events es' s')"
  by (induction es arbitrary: s) (auto split: option.splits)

lemma loop_head_schedule:
  assumes "int k \<le> maxRetries c \<Longrightarrow>
             \<exists>es. run_events es (c, [Fetching k le])
                    = Some (finally_block c, [Settled (outcome (retry_loop c net k le))])"
    and "loop_head c k le = (c2, p)"
  shows "\<exists>es. run_events es (c2, [p])
                = Some (finally_block c, [Settled (outcome (retry_loop c net k le))])"
proof (cases "int k \<le> maxRetries c")
  case True
  with assms(2) have "c2 = c" "p = Fetching k le" by (auto simp: loop_head_def)
  with assms(1) [OF True] show ?thesis by simp
next
  case False
  with assms(2) have "c2 = finally_block c" "p = Settled (Inl (retries_failed c le))"
    by (auto simp: loop_head_def)
  moreover have "outcome (retry_loop c net k le) = Inl (retries_failed c le)"
    using False by (simp add: retry_loop_exit)
  ultimately have "run_events [] (c2, [p])
      = Some (finally_block c, [Settled (outcome (retry_loop c net k le))])" by simp
  then show ?thesis by blast
qed

lemma retry_loop_schedule:
  "int k \<le> maxRetries c \<Longrightarrow>
     \<exists>es. run_events es (c, [Fetching k le])
            = Some (finally_block c, [Settled (outcome (retry_loop c net k le))])"
proof (induction c net k le rule: retry_loop.induct)
  case (1 c net attempt lastError)
  note le = "1.prems"
  obtain f le' where ab: "attempt_body c attempt (net attempt) lastError = (f, le')"
    by (cases "attempt_body c attempt (net attempt) lastError")
  show ?case
  proof (cases f)
    case (Returns j)
    with ab have "run_events [FetchSettles 0 (net attempt)] (c, [Fetching attempt lastError])
                    = Some (finally_block c, [Settled (Inr j)])"
      by (simp add: fetch_settles_def)
    moreover from retry_loop_Returns [where net = net, OF le] ab Returns
    have "outcome (retry_loop c net attempt lastError) = Inr j" by simp
    ultimately show ?thesis by (metis (no_types))
  next
    case (Throws e)
    with ab have "run_events [FetchSettles 0 (net attempt)] (c, [Fetching attempt lastError])
                    = Some (finally_block c, [Settled (Inl e)])"
      by (simp add: fetch_settles_def)
    moreover from retry_loop_Throws [where net = net, OF le] ab Throws
    have "outcome (retry_loop c net attempt lastError) = Inl e" by simp
    ultimately show ?thesis by (metis (no_types))
  next
    case (Continues d)
    obtain c2 p where lh: "loop_head c (Suc attempt) le' = (c2, p)"
      by (cases "loop_head c (Suc attempt) le'")
    from loop_head_schedule [OF "1.IH"(1) [OF le ab [symmetric] Continues] lh]
    obtain es where es: "run_events es (c2, [p])
        = Some (finally_block c, [Settled (outcome (retry_loop c net (Suc attempt) le'))])"
      by blast
    from ab Continues lh es
    have "run_events (FetchSettles 0 (net attempt) # TimerFires 0 # es)
             (c, [Fetching attempt lastError])
           = Some (finally_block c, [Settled (outcome (retry_loop c net (Suc attempt) le'))])"
      by (simp add: fetch_settles_def)
    moreover from retry_loop_Continues [where net = net, OF le] ab Continues
    have "outcome (retry_loop c net attempt lastError)
            = outcome (retry_loop c net (Suc attempt) le')"
      by (simp add: Let_def)
    ultimately show ?thesis by (metis (no_types))
  next
    case Falls
    obtain c2 p where lh: "loop_head c (Suc attempt) le' = (c2, p)"
      by (cases "loop_head c (Suc attempt) le'")
    from loop_head_schedule [OF "1.IH"(2) [OF le ab [symmetric] Falls] lh]
    obtain es where es: "run_events es (c2, [p])
        = Some (finally_block c, [Settled (outcome (retry_loop c net (Suc attempt) le'))])"
      by blast
    from ab Falls lh es
    have "run_events (FetchSettles 0 (net attempt) # es) (c, [Fetching attempt lastError])
           = Some (finally_block c, [Settled (outcome (retry_loop c net (Suc attempt) le'))])"
      by (simp add: fetch_settles_def)
    moreover from retry_loop_Falls [where net = net, OF le] ab Falls
    have "outcome (retry_loop c net attempt lastError)
            = outcome (retry_loop c net (Suc attempt) le')"
      by (simp add: Let_def)
    ultimately show ?thesis by (metis (no_types))
  qed
qed

lemma makeRequest_is_a_schedule:
  assumes "makeRequest net req c = Some (r, c')"
  shows "\<exists>es. run_events (CallMakeRequest # es) (c, []) = Some (c', [Settled (outcome r)])"
proof -
  let ?c1 = "c \<lparr> activeRequests := activeRequests c + 1 \<rparr>"
  from assms have adm: "activeRequests c < maxConcurrent c"
    and r: "r = retry_loop ?c1 (net req) 0 None" and c': "c' = c"
    by (auto simp: makeRequest_def Let_def split: if_splits)
  have fin: "finally_block ?c1 = c" by (simp add: finally_block_def)
  obtain c2 p where lh: "loop_head ?c1 0 None = (c2, p)"
    by (cases "loop_head ?c1 0 None")
  from loop_head_schedule [OF retry_loop_schedule lh, of "net req"]
  obtain es where "run_events es (c2, [p]) = Some (c, [Settled (outcome r)])"
    by (auto simp: fin r)
  with adm lh have "run_events (CallMakeRequest # es) (c, []) = Some (c, [Settled (outcome r)])"
    by (simp add: admission_def)
  with c' show ?thesis by blast
qed

subsection \<open>The concurrency cap\<close>

lemma executor_fetch_le_admitted:
  "length (filter executor_fetch ps) \<le> length (filter admitted ps)"
proof (induction ps)
  case Nil
  then show ?case by simp
next
  case (Cons p ps)
  then show ?case by (cases p) auto
qed

text \<open>
  Claim C3, as amended. For a client with a cap that is not negative, under every
  schedule the number of executor calls that hold a slot, and with it the number of
  their fetches on the network, never exceeds \<^verbatim>\<open>maxConcurrent\<close>, and a call is let
  through the admission loop only while fewer than \<^verbatim>\<open>maxConcurrent\<close> calls hold a slot.
  The calls of \<^verbatim>\<open>downloadI18nFile\<close> are outside this bound.
\<close>

theorem admitted_calls_bounded:
  assumes "run_events es (c0, []) = Some (c, ps)"
    and "activeRequests c0 = 0" and "0 \<le> maxConcurrent c0"
  shows "maxConcurrent c = maxConcurrent c0
       \<and> int (length (filter admitted ps)) \<le> maxConcurrent c
       \<and> int (length (filter executor_fetch ps)) \<le> maxConcurrent c
       \<and> (\<forall>c' p. admission c = (c', p) \<and> p \<noteq> Waiting
             \<longrightarrow> int (length (filter admitted ps)) < maxConcurrent c)"
proof -
  have "counter_exact (c0, [])" using assms(2) by (simp add: counter_exact_def)
  from run_events_counter_exact [OF assms(1) this] assms(2,3)
  have ce: "activeRequests c = int (length (filter admitted ps))"
    and mc: "maxConcurrent c = maxConcurrent c0"
    and le: "activeRequests c \<le> maxConcurrent c0"
    by (simp_all add: counter_exact_def)
  have "int (length (filter executor_fetch ps)) \<le> int (length (filter admitted ps))"
    using executor_fetch_le_admitted [of ps] by simp
  with ce mc le show ?thesis
    by (auto dest!: admission_counter)
qed

theorem admitted_calls_bounded_witness:
  "run_events [CallMakeRequest, CallMakeRequest, CallDownload] (single_slot_client, [])
     = Some (single_slot_client \<lparr> activeRequests := 1 \<rparr>, [Fetching 0 None, Waiting, Downloading])
   \<and> int (length (filter admitted [Fetching 0 None, Waiting, Downloading])) \<le> 1
   \<and> int (length (filter executor_fetch [Fetching 0 None, Waiting, Downloading])) \<le> 1"
  using admitted_calls_bounded [of "[CallMakeRequest, CallMakeRequest, CallDownload]"
      single_slot_client "single_slot_client \<lparr> activeRequests := 1 \<rparr>"
      "[Fetching 0 None, Waiting, Downloading]"]
  by (simp add: single_slot_client_def admission_def loop_head_def)

text \<open>
  Claim C3 as stated fails: \<^verbatim>\<open>downloadI18nFile\<close> is a public operation that issues its
  fetch without looking at the counter. With a cap of 1, one executor call and two
  downloads have three fetches on the network at once.
\<close>

theorem download_bypasses_cap:
  "run_events [CallMakeRequest, CallDownload, CallDownload] (single_slot_client, [])
     = Some (single_slot_client \<lparr> activeRequests := 1 \<rparr>,
             [Fetching 0 None, Downloading, Downloading])
   \<and> maxConcurrent (single_slot_client \<lparr> activeRequests := 1 \<rparr>) = 1
   \<and> length (filter on_network [Fetching 0 None, Downloading, Downloading]) = 3"
  by (simp add: single_slot_client_def admission_def loop_head_def)

subsection \<open>translateConcurrent\<close>

lemma foldl_slots:
  "length s = n \<Longrightarrow>
     foldl (\<lambda>s i. if i < n then s[i := Some (vals ! i)] else s) s order
       = map (\<lambda>i. if i \<in> set order then Some (vals ! i) else s ! i) [0..<n]"
proof (induction order arbitrary: s)
  case Nil
  then show ?case using map_nth [of s] by simp
next
  case (Cons i order)
  let ?s' = "if i < n then s[i := Some (vals ! i)] else s"
  have len: "length ?s' = n" using Cons.prems by simp
  have "foldl (\<lambda>s i. if i < n then s[i := Some (vals ! i)] else s) s (i # order)
          = foldl (\<lambda>s i. if i < n then s[i := Some (vals ! i)] else s) ?s' order"
    by simp
  also have "\<dots> = map (\<lambda>j. if j \<in> set order then Some (vals ! j) else ?s' ! j) [0..<n]"
    by (rule Cons.IH [OF len])
  also have "\<dots> = map (\<lambda>j. if j \<in> set (i # order) then Some (vals ! j) else s ! j) [0..<n]"
    using Cons.prems by (auto simp: nth_list_update)
  finally show ?case .
qed

lemma promise_all_settled:
  assumes "\<forall>i < length vals. i \<in> set order"
  shows "promise_all vals order = Some vals"
proof -
  have "foldl (\<lambda>s i. if i < length vals then s[i := Some (vals ! i)] else s)
          (replicate (length vals) None) order
        = map (\<lambda>i. Some (vals ! i)) [0..<length vals]"
    using assms by (simp add: foldl_slots)
  also have "\<dots> = map Some (map ((!) vals) [0..<length vals])"
    by simp
  also have "\<dots> = map Some vals"
    by (simp only: map_nth)
  finally show ?thesis
    by (simp add: promise_all_def Let_def list_all_iff comp_def)
qed

text \<open>
  Claim C7. For texts of length \<open>n\<close>, once every translation has settled, in whatever
  order, \<^verbatim>\<open>translateConcurrent\<close> returns an array of length \<open>n\<close> whose slot \<open>i\<close> belongs
  to the call made for \<open>texts ! i\<close>: the result when that call succeeded, an error
  indicator with the error's message when it failed. The call as a whole does not raise.
\<close>

theorem translateConcurrent_slots:
  assumes "\<forall>i < length texts. i \<in> set order"
  shows "\<exists>slots. translateConcurrent settle texts source target order = Some slots
       \<and> length slots = length texts
       \<and> (\<forall>i < length texts. slots ! i =
            (case settle i (translate_request
                    \<lparr> opt_text = texts ! i,
                      opt_source = Some (case source of None \<Rightarrow> ''auto'' | Some s \<Rightarrow> s),
                      opt_target = target \<rparr>) of
               Inr r \<Rightarrow> Result r
             | Inl e \<Rightarrow> ErrorIndicator (msg e)))"
proof -
  let ?f = "\<lambda>(i, t).
              case settle i (translate_request
                     \<lparr> opt_text = t,
                       opt_source = Some (case source of None \<Rightarrow> ''auto'' | Some s \<Rightarrow> s),
                       opt_target = target \<rparr>) of
                Inr r \<Rightarrow> Result r
              | Inl e \<Rightarrow> ErrorIndicator (msg e)"
  let ?promises = "map ?f (enumerate 0 texts)"
  have "\<forall>i < length ?promises. i \<in> set order" using assms by simp
  then have "promise_all ?promises order = Some ?promises" by (rule promise_all_settled)
  then have "translateConcurrent settle texts source target order = Some ?promises"
    by (simp add: translateConcurrent_def Let_def)
  moreover have "length ?promises = length texts" by simp
  moreover have "\<forall>i < length texts. ?promises ! i = ?f (i, texts ! i)"
    by (simp add: nth_enumerate_eq)
  ultimately show ?thesis by auto
qed

theorem translateConcurrent_slots_witness:
  "translateConcurrent a_succeeds_b_fails [''A'', ''B''] (Some ''en'') ''fr'' [1, 0]
     = Some [Result (JObj [(''translations'', JObj [(''translation'', JStr ''A-fr'')])]),
             ErrorIndicator (RequestFailedAfter 3 (Some (Literal ''socket hang up'')))]"
  using translateConcurrent_slots [of "[''A'', ''B'']" "[1, 0]" a_succeeds_b_fails
          "Some ''en''" "''fr''"]
  by (simp add: translateConcurrent_def promise_all_def a_succeeds_b_fails_def
        translate_request_def or_string_def)

subsection \<open>Other error statuses\<close>

lemma errorMessage_class:
  "errorMessage ed st = Inl e \<Longrightarrow> cls e = TypeError"
  by (auto simp: errorMessage_def split: json.splits option.splits if_splits)

lemma attempt_body_generic_status:
  assumes "400 \<le> status r" "status r \<noteq> 401" "status r \<noteq> 402" "status r \<noteq> 403" "status r \<noteq> 429"
  shows "attempt_body c k (Resolves r) le
           = (if int k < maxRetries c then Continues (backoff k) else Falls, Some (status_error r))"
  using assms
  by (auto simp: attempt_body_def try_block_def catch_fetchError_def status_error_def
           dest: errorMessage_class split: sum.splits)

text \<open>
  What the code does with a status of 400 or more other than 401, 402, 403 and 429: the
  API error built from the status and the payload is thrown inside the \<^verbatim>\<open>try\<close> block
  and caught by its own \<^verbatim>\<open>catch\<close> clause, which keeps it as \<^verbatim>\<open>lastError\<close> and, while
  \<open>attempt < maxRetries\<close>, waits \<open>2 ^ attempt * 1000\<close> ms and goes round again. When every
  attempt receives such a status, \<open>maxRetries + 1\<close> network calls are made and the error
  raised is the one of exhausted retries, built from the message of the last attempt's
  error alone.
\<close>

lemma generic_status_is_retried:
  assumes net: "\<And>k. net req k = Resolves (rs k)"
    and st: "\<And>k. 400 \<le> status (rs k) \<and> status (rs k) \<noteq> 401 \<and> status (rs k) \<noteq> 402
                 \<and> status (rs k) \<noteq> 403 \<and> status (rs k) \<noteq> 429"
    and "0 \<le> maxRetries c" and "activeRequests c < maxConcurrent c"
  shows "(\<forall>k le. int k < maxRetries c \<longrightarrow>
            attempt_body c k (net req k) le
              = (Continues (backoff k), Some (status_error (rs k))))
       \<and> makeRequest net req c =
             Some (\<lparr> outcome = Inl (Error TranslatePlusAPIError
                          (RequestFailedAfter (maxRetries c)
                             (Some (msg (status_error (rs (nat (maxRetries c)))))))
                          None None),
                     calls = nat (maxRetries c) + 1,
                     waits = map backoff [0..<nat (maxRetries c)] \<rparr>, c)"
proof -
  have ab: "\<And>k le. attempt_body c k (net req k) le
              = (if int k < maxRetries c then Continues (backoff k) else Falls,
                 Some (status_error (rs k)))"
    using st by (simp add: net attempt_body_generic_status)
  have "makeRequest net req c =
           Some (\<lparr> outcome = Inl (Error TranslatePlusAPIError
                        (RequestFailedAfter (maxRetries c)
                           (Some (msg (status_error (rs (nat (maxRetries c))))))) None None),
                   calls = nat (maxRetries c) + 1,
                   waits = map backoff [0..<nat (maxRetries c)] \<rparr>, c)"
    by (rule makeRequest_all_retried) (use ab assms(3,4) in simp_all)
  with ab show ?thesis by simp
qed

text \<open>
  No generic API error that leaves the executor carries a status or a payload: the only
  one it raises is the error of exhausted retries.
\<close>

lemma retry_loop_api_error_no_status:
  "outcome (retry_loop c net attempt le) = Inl e \<Longrightarrow> cls e = TranslatePlusAPIError \<Longrightarrow>
     statusCode e = None \<and> payload e = None"
proof (induction c net attempt le rule: retry_loop.induct)
  case (1 c net attempt lastError)
  show ?case
  proof (cases "int attempt \<le> maxRetries c")
    case False
    with "1.prems" show ?thesis
      by (auto simp: retry_loop_exit retries_failed_def)
  next
    case True
    obtain f le' where ab: "attempt_body c attempt (net attempt) lastError = (f, le')"
      by (cases "attempt_body c attempt (net attempt) lastError")
    show ?thesis
    proof (cases f)
      case (Returns j)
      with retry_loop_Returns [where net = net, OF True] ab "1.prems" show ?thesis by simp
    next
      case (Throws e')
      with retry_loop_Throws [where net = net, OF True] ab "1.prems" have "e = e'" by simp
      with attempt_body_Throws_class [of c attempt "net attempt" lastError e' le'] ab Throws
        "1.prems"(2)
      show ?thesis by simp
    next
      case (Continues d)
      with retry_loop_Continues [where net = net, OF True] ab "1.prems"
      have "outcome (retry_loop c net (Suc attempt) le') = Inl e" by (simp add: Let_def)
      with "1.IH"(1) [OF True ab [symmetric] Continues] "1.prems"(2) show ?thesis by simp
    next
      case Falls
      with retry_loop_Falls [where net = net, OF True] ab "1.prems"
      have "outcome (retry_loop c net (Suc attempt) le') = Inl e" by (simp add: Let_def)
      with "1.IH"(2) [OF True ab [symmetric] Falls] "1.prems"(2) show ?thesis by simp
    qed
  qed
qed

text \<open>
  Claim C1 on the code: a response with a status of 400 or more other than 401, 402, 403
  and 429 should end the call on that attempt, after one network call, with a generic
  API error that carries the status and the decoded payload. With the default budget of
  three retries, a service that answers 500 with a detail message every time is called
  four times, with waits of 1, 2 and 4 seconds, and the error raised in the end has
  neither the status nor the payload.
\<close>

theorem server_error_is_retried:
  "makeRequest (always (Resolves server_error_response)) hello_request default_client
     = Some (\<lparr> outcome = Inl (Error TranslatePlusAPIError
                   (RequestFailedAfter 3 (Some (Detail (JStr ''Internal Server Error''))))
                   None None),
               calls = 4, waits = [Some 1000, Some 2000, Some 4000] \<rparr>, default_client)"
proof -
  have ab: "\<And>k le. attempt_body default_client k
                (always (Resolves server_error_response) hello_request k) le
              = (if int k < maxRetries default_client then Continues (backoff k) else Falls,
                 Some (status_error server_error_response))"
    by (simp add: always_def attempt_body_generic_status server_error_response_def)
  have "makeRequest (always (Resolves server_error_response)) hello_request default_client =
           Some (\<lparr> outcome = Inl (Error TranslatePlusAPIError
                        (RequestFailedAfter (maxRetries default_client)
                           (Some (msg (status_error server_error_response)))) None None),
                   calls = nat (maxRetries default_client) + 1,
                   waits = map backoff [0..<nat (maxRetries default_client)] \<rparr>, default_client)"
    by (rule makeRequest_all_retried) (use ab in \<open>simp_all add: default_client_def\<close>)
  then show ?thesis
    by (simp add: default_client_def upt_3 backoff_def status_error_def
          server_error_response_def errorData_def errorMessage_def)
qed

subsection \<open>Rate limiting\<close>

lemma parseInt_2: "parseInt ''2'' = Some 2"
  by (simp add: parseInt_def is_space_def is_digit_def digits_value_def digit_value_def)

lemma parseInt_60: "parseInt ''60'' = Some 60"
  by (simp add: parseInt_def is_space_def is_digit_def digits_value_def digit_value_def)

lemma parseInt_no_break_space: "parseInt [CHR 0xA0, CHR ''3''] = Some 3"
  by (simp add: parseInt_def is_space_def is_digit_def digits_value_def digit_value_def)

lemma parseInt_date: "parseInt ''Wed, 21 Oct 2015 07:28:00 GMT'' = None"
  by (simp add: parseInt_def is_space_def is_digit_def)

lemma attempt_body_429:
  assumes "status r = 429"
  shows "attempt_body c k (Resolves r) le
           = (if int k < maxRetries c then (Continues (rate_limit_delay r k), le)
              else (Falls, Some (rate_limit_error r)))"
  using assms
  by (simp add: attempt_body_def try_block_def catch_fetchError_def rate_limit_error_def)

text \<open>
  What the code does on a 429: with \<open>attempt < maxRetries\<close> the delay handed to the
  timer is \<open>min (n * 1000) (2 ^ attempt * 1000)\<close>, where \<open>n\<close> is the integer
  \<^verbatim>\<open>parseInt\<close> reads at the start of the \<^verbatim>\<open>Retry-After\<close> header, or 2 when the header
  is absent or empty, and \<^verbatim>\<open>lastError\<close> is left as it was; on the last allowed attempt
  there is no wait.
\<close>

lemma rate_limit_wait:
  assumes "status r = 429"
  shows "(int attempt < maxRetries c \<longrightarrow>
            attempt_body c attempt (Resolves r) le
              = (Continues (case parseInt (or_string (retry_after r) ''2'') of
                              None \<Rightarrow> None
                            | Some n \<Rightarrow> Some (min (n * 1000) (2 ^ attempt * 1000))), le))
       \<and> (int attempt < maxRetries c \<and> (retry_after r = None \<or> retry_after r = Some []) \<longrightarrow>
            attempt_body c attempt (Resolves r) le
              = (Continues (Some (min 2000 (2 ^ attempt * 1000))), le))
       \<and> (\<not> int attempt < maxRetries c \<longrightarrow>
            (\<forall>d. fst (attempt_body c attempt (Resolves r) le) \<noteq> Continues d))"
  using assms
  by (auto simp: attempt_body_429 rate_limit_delay_def retryAfter_def or_string_def parseInt_2)

lemma rate_limit_wait_examples:
  "attempt_body default_client 1 (Resolves rate_limited_response) None
     = (Continues (Some 2000), None)
   \<and> attempt_body default_client 2 (Resolves bare_rate_limited_response) None
     = (Continues (Some 2000), None)
   \<and> fst (attempt_body default_client 3 (Resolves rate_limited_response) None)
     \<noteq> Continues (Some 8000)"
  using rate_limit_wait [of rate_limited_response 1 default_client None]
    rate_limit_wait [of bare_rate_limited_response 2 default_client None]
    rate_limit_wait [of rate_limited_response 3 default_client None]
  by (simp add: rate_limited_response_def default_client_def parseInt_60 parseInt_2
        or_string_def bare_rate_limited_response_def)

lemma makeRequest_all_429:
  assumes net: "\<And>k. net req k = Resolves (rs k)"
    and st: "\<And>k. status (rs k) = 429"
    and "0 \<le> maxRetries c" and "activeRequests c < maxConcurrent c"
  shows "makeRequest net req c =
           Some (\<lparr> outcome = Inl (Error TranslatePlusAPIError
                        (RequestFailedAfter (maxRetries c)
                           (Some (Literal ''Rate limit exceeded. Please try again later.'')))
                        None None),
                   calls = nat (maxRetries c) + 1,
                   waits = map (\<lambda>k. rate_limit_delay (rs k) k) [0..<nat (maxRetries c)] \<rparr>, c)"
proof -
  have ab: "\<And>k le. attempt_body c k (net req k) le
           = (if int k < maxRetries c then (Continues (rate_limit_delay (rs k) k), le)
              else (Falls, Some (rate_limit_error (rs k))))"
    using st by (simp add: net attempt_body_429)
  have "makeRequest net req c =
           Some (\<lparr> outcome = Inl (Error TranslatePlusAPIError
                        (RequestFailedAfter (maxRetries c)
                           (Some (msg (rate_limit_error (rs (nat (maxRetries c))))))) None None),
                   calls = nat (maxRetries c) + 1,
                   waits = map (\<lambda>k. rate_limit_delay (rs k) k) [0..<nat (maxRetries c)] \<rparr>, c)"
    by (rule makeRequest_all_retried) (use ab assms(3,4) in simp_all)
  then show ?thesis by (simp add: rate_limit_error_def)
qed

text \<open>
  Claim C5 on the code: a service that answers 429 with \<^verbatim>\<open>Retry-After: 60\<close> every time
  is called \<open>maxRetries + 1 = 4\<close> times, but the rate-limit error thrown on the last
  attempt is caught by the \<^verbatim>\<open>catch\<close> clause of the same attempt, and the call raises
  the generic API error of exhausted retries instead.
\<close>

theorem rate_limit_error_is_swallowed:
  "makeRequest (always (Resolves rate_limited_response)) hello_request default_client
     = Some (\<lparr> outcome = Inl (Error TranslatePlusAPIError
                   (RequestFailedAfter 3
                      (Some (Literal ''Rate limit exceeded. Please try again later.'')))
                   None None),
               calls = 4, waits = [Some 1000, Some 2000, Some 4000] \<rparr>, default_client)"
proof -
  have "makeRequest (always (Resolves rate_limited_response)) hello_request default_client =
           Some (\<lparr> outcome = Inl (Error TranslatePlusAPIError
                        (RequestFailedAfter (maxRetries default_client)
                           (Some (Literal ''Rate limit exceeded. Please try again later.'')))
                        None None),
                   calls = nat (maxRetries default_client) + 1,
                   waits = map (\<lambda>k. rate_limit_delay rate_limited_response k)
                             [0..<nat (maxRetries default_client)] \<rparr>, default_client)"
    by (rule makeRequest_all_429)
       (simp_all add: always_def rate_limited_response_def default_client_def)
  then show ?thesis
    by (simp add: default_client_def upt_3 rate_limit_delay_def retryAfter_def or_string_def
          rate_limited_response_def parseInt_60)
qed

text \<open>
  Claim C4 on the code, at two inputs. \<^verbatim>\<open>Retry-After\<close> may be an HTTP date; then
  \<^verbatim>\<open>parseInt\<close> gives \<^verbatim>\<open>NaN\<close> and the delay handed to the timer is \<^verbatim>\<open>NaN\<close>, not the
  \<open>min (2 * 1000) (2 ^ attempt * 1000)\<close> of the default. And on the last allowed
  attempt the rate-limit error is thrown inside the \<^verbatim>\<open>try\<close> block whose \<^verbatim>\<open>catch\<close>
  clause keeps it as \<^verbatim>\<open>lastError\<close>; the loop ends and the generic API error of
  exhausted retries is raised.
\<close>

theorem rate_limit_wait_failures:
  "attempt_body default_client 0 (Resolves dated_retry_response) None = (Continues None, None)
   \<and> attempt_body default_client 3 (Resolves rate_limited_response) None
     = (Falls, Some (Error TranslatePlusRateLimitError
                      (Literal ''Rate limit exceeded. Please try again later.'') (Some 429)
                      (Some (JObj [(''detail'', JStr ''Rate limit exceeded'')]))))
   \<and> retry_loop default_client (always (Resolves rate_limited_response) hello_request) 4
       (Some (Error TranslatePlusRateLimitError
                (Literal ''Rate limit exceeded. Please try again later.'') (Some 429)
                (Some (JObj [(''detail'', JStr ''Rate limit exceeded'')]))))
     = \<lparr> outcome = Inl (Error TranslatePlusAPIError
                  (RequestFailedAfter 3
                     (Some (Literal ''Rate limit exceeded. Please try again later.'')))
                  None None),
         calls = 0, waits = [] \<rparr>"
  by (simp add: attempt_body_429 dated_retry_response_def rate_limited_response_def
        default_client_def rate_limit_delay_def retryAfter_def or_string_def parseInt_date
        rate_limit_error_def errorData_def retry_loop_exit retries_failed_def)

subsection \<open>Authentication and credit errors\<close>

lemma attempt_body_auth_status:
  assumes "status r = 401 \<or> status r = 403" and "json_body r \<noteq> Some JNull"
  shows "\<exists>m. attempt_body c k (Resolves r) le
           = (Throws (Error TranslatePlusAuthenticationError m (Some (status r))
                        (Some (errorData r))), le)"
  using assms
  by (auto simp: attempt_body_def try_block_def catch_fetchError_def catch_error_def
                 errorMessage_def errorData_def
           split: option.splits json.splits)

lemma attempt_body_credits_status:
  assumes "status r = 402" and "json_body r \<noteq> Some JNull"
  shows "\<exists>m. attempt_body c k (Resolves r) le
           = (Throws (Error TranslatePlusInsufficientCreditsError m (Some (status r))
                        (Some (errorData r))), le)"
  using assms
  by (auto simp: attempt_body_def try_block_def catch_fetchError_def catch_error_def
                 errorMessage_def errorData_def
           split: option.splits json.splits)

lemma makeRequest_auth_status:
  assumes "net req 0 = Resolves r" and "status r = 401 \<or> status r = 403"
    and "json_body r \<noteq> Some JNull"
    and "0 \<le> maxRetries c" and "activeRequests c < maxConcurrent c"
  shows "\<exists>m. makeRequest net req c
           = Some (\<lparr> outcome = Inl (Error TranslatePlusAuthenticationError m
                                      (Some (status r)) (Some (errorData r))),
                     calls = 1, waits = [] \<rparr>, c)"
proof -
  let ?c1 = "c \<lparr> activeRequests := activeRequests c + 1 \<rparr>"
  from attempt_body_auth_status [OF assms(2,3), of ?c1 0 None] assms(1)
  obtain m where "attempt_body ?c1 0 (net req 0) None
           = (Throws (Error TranslatePlusAuthenticationError m (Some (status r))
                        (Some (errorData r))), None)" by auto
  from retry_loop_Throws [where net = "net req", OF _ this] assms(4)
  have "retry_loop ?c1 (net req) 0 None
          = \<lparr> outcome = Inl (Error TranslatePlusAuthenticationError m (Some (status r))
                        (Some (errorData r))), calls = 1, waits = [] \<rparr>"
    by simp
  with assms(5) show ?thesis by (auto simp: makeRequest_admitted)
qed

lemma makeRequest_credits_status:
  assumes "net req 0 = Resolves r" and "status r = 402"
    and "json_body r \<noteq> Some JNull"
    and "0 \<le> maxRetries c" and "activeRequests c < maxConcurrent c"
  shows "\<exists>m. makeRequest net req c
           = Some (\<lparr> outcome = Inl (Error TranslatePlusInsufficientCreditsError m
                                      (Some (status r)) (Some (errorData r))),
                     calls = 1, waits = [] \<rparr>, c)"
proof -
  let ?c1 = "c \<lparr> activeRequests := activeRequests c + 1 \<rparr>"
  from attempt_body_credits_status [OF assms(2,3), of ?c1 0 None] assms(1)
  obtain m where "attempt_body ?c1 0 (net req 0) None
           = (Throws (Error TranslatePlusInsufficientCreditsError m (Some (status r))
                        (Some (errorData r))), None)" by auto
  from retry_loop_Throws [where net = "net req", OF _ this] assms(4)
  have "retry_loop ?c1 (net req) 0 None
          = \<lparr> outcome = Inl (Error TranslatePlusInsufficientCreditsError m (Some (status r))
                        (Some (errorData r))), calls = 1, waits = [] \<rparr>"
    by simp
  with assms(5) show ?thesis by (auto simp: makeRequest_admitted)
qed

lemma attempt_body_null_error_body:
  assumes "400 \<le> status r" and "status r \<noteq> 429" and "json_body r = Some JNull"
  shows "attempt_body c k (Resolves r) le
           = (if int k < maxRetries c then Continues (backoff k) else Falls,
              Some (Error TypeError (Literal ''Cannot read properties of null'') None None))"
  using assms
  by (simp add: attempt_body_def try_block_def catch_fetchError_def errorMessage_def
        errorData_def)

text \<open>
  Claim C6 on the code: for a 401 whose body is the JSON value \<^verbatim>\<open>null\<close>, reading
  \<^verbatim>\<open>errorData.detail\<close> throws a \<^verbatim>\<open>TypeError\<close> before the authentication error is
  built; the \<^verbatim>\<open>catch\<close> clause takes it for a transient failure, the request is sent
  four times, and the generic API error of exhausted retries is raised.
\<close>

theorem null_body_401_is_retried:
  "makeRequest (always (Resolves null_unauthorized_response)) hello_request default_client
     = Some (\<lparr> outcome = Inl (Error TranslatePlusAPIError
                   (RequestFailedAfter 3 (Some (Literal ''Cannot read properties of null'')))
                   None None),
               calls = 4, waits = [Some 1000, Some 2000, Some 4000] \<rparr>, default_client)"
proof -
  have ab: "\<And>k le. attempt_body default_client k
                (always (Resolves null_unauthorized_response) hello_request k) le
              = (if int k < maxRetries default_client then Continues (backoff k) else Falls,
                 Some (Error TypeError (Literal ''Cannot read properties of null'') None None))"
    by (simp add: always_def attempt_body_null_error_body null_unauthorized_response_def)
  have "makeRequest (always (Resolves null_unauthorized_response)) hello_request default_client =
           Some (\<lparr> outcome = Inl (Error TranslatePlusAPIError
                        (RequestFailedAfter (maxRetries default_client)
                           (Some (msg (Error TypeError
                              (Literal ''Cannot read properties of null'') None None))))
                        None None),
                   calls = nat (maxRetries default_client) + 1,
                   waits = map backoff [0..<nat (maxRetries default_client)] \<rparr>, default_client)"
    by (rule makeRequest_all_retried) (use ab in \<open>simp_all add: default_client_def\<close>)
  then show ?thesis
    by (simp add: default_client_def upt_3 backoff_def)
qed

subsection \<open>downloadI18nFile\<close>

lemma downloadI18nFile_one_call:
  "downloadI18nFile net jobId languageCode c = (r, c') \<Longrightarrow>
     c' = c \<and> calls r = 1 \<and> waits r = []"
  by (auto simp: downloadI18nFile_def)

lemma downloadI18nFile_error_status:
  assumes "net (download_request jobId languageCode) 0 = Resolves r"
    and "400 \<le> status r" and "json_body r \<noteq> Some JNull"
  shows "\<exists>m. downloadI18nFile net jobId languageCode c
           = (\<lparr> outcome = Inl (Error TranslatePlusAPIError m (Some (status r))
                                 (Some (errorData r))),
                calls = 1, waits = [] \<rparr>, c)"
  using assms
  by (auto simp: downloadI18nFile_def download_result_def errorMessage_def errorData_def
           split: option.splits json.splits)

lemma downloadI18nFile_transport_failure:
  "net (download_request jobId languageCode) 0 = Rejects e \<Longrightarrow>
     downloadI18nFile net jobId languageCode c
       = (\<lparr> outcome = Inl e, calls = 1, waits = [] \<rparr>, c)"
  by (simp add: downloadI18nFile_def download_result_def)

text \<open>
  Claim C9 on the code: \<^verbatim>\<open>downloadI18nFile\<close> makes its one network call whatever the
  counter holds and leaves the counter alone, but when the body of an error response
  is the JSON value \<^verbatim>\<open>null\<close>, reading \<^verbatim>\<open>errorData.detail\<close> throws, and the caller gets
  a \<^verbatim>\<open>TypeError\<close> with no status and no payload in place of the generic API error.
\<close>

theorem download_null_body_raises_type_error:
  "downloadI18nFile (always (Resolves null_not_found_response)) ''job-1'' ''fr''
       (default_client \<lparr> activeRequests := 5 \<rparr>)
     = (\<lparr> outcome = Inl (Error TypeError (Literal ''Cannot read properties of null'') None None),
          calls = 1, waits = [] \<rparr>, default_client \<lparr> activeRequests := 5 \<rparr>)"
  by (simp add: downloadI18nFile_def download_result_def always_def
        null_not_found_response_def errorData_def errorMessage_def)

end
